theory Spec2Isabelle
  imports Main "HOL-Library.Word"
begin

section \<open>The authorization package: data model\<close>

text \<open>
  The Go package \<open>authorization\<close> keeps, per user, the list of permissions last loaded
  from the database together with the instant of the load. Instants are clock readings
  in nanoseconds and durations are differences of readings (Go's \<open>time.Duration\<close> counts
  nanoseconds); both are integers here. \<open>time.Since t\<close> and \<open>now.Sub t\<close> are the
  difference of the current reading and \<open>t\<close>; the saturation of \<open>Time.Sub\<close> at about
  292 years is not reached by readings of one process and is left out.
\<close>

record Permission =
  Name :: string
  Resource :: string
  Action :: string

record UserPermissions =
  Permissions :: "Permission list"
  LoadedAt :: int

record Authorizer =
  cache :: "string \<rightharpoonup> UserPermissions"
  cacheTTL :: int
  enableCaching :: bool

text \<open>A parsed \<open>uuid.UUID\<close> is an array of bytes.\<close>

type_synonym UUID = "8 word list"

text \<open>
  Go errors: the sentinel \<open>sql.ErrNoRows\<close>, any other leaf error with its message, and
  \<open>fmt.Errorf "<context>: %w"\<close>, which wraps an error under a context message.
  \<open>errors.Is\<close> walks the chain of wrapped errors.
\<close>

datatype error = ErrNoRows | ErrOther string | Wrapf string error

fun errors_Is :: "error \<Rightarrow> error \<Rightarrow> bool" where
  "errors_Is (Wrapf m e) target = (Wrapf m e = target \<or> errors_Is e target)"
| "errors_Is e target = (e = target)"

section \<open>The collaborators: identifier parser, clock and database\<close>

text \<open>
  The five SQL statements of the package, by the method that issues them and their
  arguments. The world records every statement sent to the database, in order.
\<close>

datatype db_call =
    CallSelectPermissions UUID
  | CallGetRoleExists UUID string
  | CallSelectRoles UUID
  | CallExecAssign UUID string
  | CallExecRemove UUID string

text \<open>
  \<open>uuid.Parse\<close>, \<open>time.Now\<close> and the database behind \<open>TracedDB\<close> are outside the package;
  the model takes them as parameters. A database operation receives the database state
  and returns what the Go call returns (the destination value and the error) together
  with the next database state. \<open>time_Now env n\<close> is the \<open>n\<close>-th reading of the clock.
\<close>

record 'db env =
  uuid_Parse :: "string \<Rightarrow> UUID \<times> error option"
  time_Now :: "nat \<Rightarrow> int"
  db_select_permissions :: "'db \<Rightarrow> UUID \<Rightarrow> (Permission list \<times> error option) \<times> 'db"
  db_get_role_exists :: "'db \<Rightarrow> UUID \<Rightarrow> string \<Rightarrow> (bool \<times> error option) \<times> 'db"
  db_select_roles :: "'db \<Rightarrow> UUID \<Rightarrow> (string list \<times> error option) \<times> 'db"
  db_exec_assign :: "'db \<Rightarrow> UUID \<Rightarrow> string \<Rightarrow> error option \<times> 'db"
  db_exec_remove :: "'db \<Rightarrow> UUID \<Rightarrow> string \<Rightarrow> error option \<times> 'db"

record 'db world =
  db :: 'db
  calls :: "db_call list"
  ticks :: nat

definition readClock :: "'db env \<Rightarrow> 'db world \<Rightarrow> int \<times> 'db world" where
  "readClock env w = (time_Now env (ticks w), w\<lparr>ticks := Suc (ticks w)\<rparr>)"

section \<open>Construction and configuration\<close>

definition Minute :: int where
  "Minute = 60 * 1000000000"

definition CacheTTL :: "int \<Rightarrow> int" where
  "CacheTTL cacheTTLMinutes = cacheTTLMinutes * Minute"

definition NewAuthorizer :: "int \<Rightarrow> Authorizer" where
  "NewAuthorizer cacheTTLMinutes =
     \<lparr>cache = Map.empty, cacheTTL = CacheTTL cacheTTLMinutes, enableCaching = True\<rparr>"

definition SetCacheTTL :: "Authorizer \<Rightarrow> int \<Rightarrow> Authorizer" where
  "SetCacheTTL a ttl = a\<lparr>cacheTTL := ttl\<rparr>"

definition DisableCache :: "Authorizer \<Rightarrow> Authorizer" where
  "DisableCache a = a\<lparr>enableCaching := False\<rparr>"

definition EnableCache :: "Authorizer \<Rightarrow> Authorizer" where
  "EnableCache a = a\<lparr>enableCaching := True\<rparr>"

section \<open>The cache\<close>

text \<open>
  The loop \<open>for _, p := range permissions { if p.Name == permissionName { return true } }\<close>
  followed by \<open>return false\<close>; \<open>HasPermission\<close> and \<open>checkCache\<close> both end with it.
\<close>

fun scanName :: "Permission list \<Rightarrow> string \<Rightarrow> bool" where
  "scanName [] permissionName = False"
| "scanName (p # ps) permissionName =
     (if Name p = permissionName then True else scanName ps permissionName)"

text \<open>\<open>checkCache\<close> returns the pair (hasPermission, found). The clock is read only for an
  entry that exists.\<close>

definition checkCache ::
  "'db env \<Rightarrow> Authorizer \<Rightarrow> 'db world \<Rightarrow> string \<Rightarrow> string \<Rightarrow> (bool \<times> bool) \<times> 'db world" where
  "checkCache env a w userID permissionName =
     (case cache a userID of
        None \<Rightarrow> ((False, False), w)
      | Some userPerms \<Rightarrow>
          (case readClock env w of
             (now, w') \<Rightarrow>
               if now - LoadedAt userPerms > cacheTTL a then ((False, False), w')
               else ((scanName (Permissions userPerms) permissionName, True), w')))"

definition updateCache ::
  "'db env \<Rightarrow> Authorizer \<Rightarrow> 'db world \<Rightarrow> string \<Rightarrow> Permission list \<Rightarrow> Authorizer \<times> 'db world" where
  "updateCache env a w userID permissions =
     (case readClock env w of
        (now, w') \<Rightarrow>
          (a\<lparr>cache := (cache a)(userID \<mapsto> \<lparr>Permissions = permissions, LoadedAt = now\<rparr>)\<rparr>, w'))"

definition invalidateCache :: "Authorizer \<Rightarrow> string \<Rightarrow> Authorizer" where
  "invalidateCache a userID = a\<lparr>cache := (cache a)(userID := None)\<rparr>"

text \<open>
  \<open>cleanExpiredCache\<close> reads the clock once and ranges over the map. Go leaves the order
  of a map range open, so the loop takes the order as the list \<open>order\<close> of the keys it
  visits; a key deleted before its turn is skipped.
\<close>

fun cleanLoop :: "int \<Rightarrow> string list \<Rightarrow> Authorizer \<Rightarrow> Authorizer" where
  "cleanLoop now [] a = a"
| "cleanLoop now (userID # rest) a =
     (case cache a userID of
        None \<Rightarrow> cleanLoop now rest a
      | Some userPerms \<Rightarrow>
          if now - LoadedAt userPerms > cacheTTL a
          then cleanLoop now rest (a\<lparr>cache := (cache a)(userID := None)\<rparr>)
          else cleanLoop now rest a)"

definition cleanExpiredCache ::
  "'db env \<Rightarrow> Authorizer \<Rightarrow> 'db world \<Rightarrow> string list \<Rightarrow> Authorizer \<times> 'db world" where
  "cleanExpiredCache env a w order =
     (case readClock env w of (now, w') \<Rightarrow> (cleanLoop now order a, w'))"

section \<open>Loading from the database\<close>

text \<open>An error of the query is returned unless it is (or wraps) \<open>sql.ErrNoRows\<close>.\<close>

definition loadUserPermissions ::
  "'db env \<Rightarrow> 'db world \<Rightarrow> UUID \<Rightarrow> (Permission list \<times> error option) \<times> 'db world" where
  "loadUserPermissions env w userID =
     (case db_select_permissions env (db w) userID of
        ((permissions, err), d') \<Rightarrow>
          (let w' = w\<lparr>db := d', calls := calls w @ [CallSelectPermissions userID]\<rparr> in
           case err of
             None \<Rightarrow> ((permissions, None), w')
           | Some e \<Rightarrow>
               if \<not> errors_Is e ErrNoRows then (([], Some e), w')
               else ((permissions, None), w')))"

section \<open>The decision API\<close>

definition HasPermission ::
  "'db env \<Rightarrow> Authorizer \<Rightarrow> 'db world \<Rightarrow> string \<Rightarrow> string
     \<Rightarrow> (bool \<times> error option) \<times> Authorizer \<times> 'db world" where
  "HasPermission env a w userID permissionName =
     (case uuid_Parse env userID of
        (uid, Some err) \<Rightarrow> ((False, Some (Wrapf ''invalid user ID'' err)), a, w)
      | (uid, None) \<Rightarrow>
          (case (if enableCaching a then checkCache env a w userID permissionName
                 else ((False, False), w)) of
             ((hasPermission, found), w1) \<Rightarrow>
               if enableCaching a \<and> found then ((hasPermission, None), a, w1)
               else
                 (case loadUserPermissions env w1 uid of
                    ((permissions, Some err), w2) \<Rightarrow>
                      ((False, Some (Wrapf ''failed to load user permissions'' err)), a, w2)
                  | ((permissions, None), w2) \<Rightarrow>
                      (case (if enableCaching a then updateCache env a w2 userID permissions
                             else (a, w2)) of
                         (a', w3) \<Rightarrow> ((scanName permissions permissionName, None), a', w3)))))"

fun HasAnyPermission ::
  "'db env \<Rightarrow> Authorizer \<Rightarrow> 'db world \<Rightarrow> string \<Rightarrow> string list
     \<Rightarrow> (bool \<times> error option) \<times> Authorizer \<times> 'db world" where
  "HasAnyPermission env a w userID [] = ((False, None), a, w)"
| "HasAnyPermission env a w userID (permissionName # rest) =
     (case HasPermission env a w userID permissionName of
        ((hasPermission, Some err), a', w') \<Rightarrow> ((False, Some err), a', w')
      | ((hasPermission, None), a', w') \<Rightarrow>
          if hasPermission then ((True, None), a', w')
          else HasAnyPermission env a' w' userID rest)"

fun HasAllPermissions ::
  "'db env \<Rightarrow> Authorizer \<Rightarrow> 'db world \<Rightarrow> string \<Rightarrow> string list
     \<Rightarrow> (bool \<times> error option) \<times> Authorizer \<times> 'db world" where
  "HasAllPermissions env a w userID [] = ((True, None), a, w)"
| "HasAllPermissions env a w userID (permissionName # rest) =
     (case HasPermission env a w userID permissionName of
        ((hasPermission, Some err), a', w') \<Rightarrow> ((False, Some err), a', w')
      | ((hasPermission, None), a', w') \<Rightarrow>
          if \<not> hasPermission then ((False, None), a', w')
          else HasAllPermissions env a' w' userID rest)"

definition HasRole ::
  "'db env \<Rightarrow> Authorizer \<Rightarrow> 'db world \<Rightarrow> string \<Rightarrow> string
     \<Rightarrow> (bool \<times> error option) \<times> Authorizer \<times> 'db world" where
  "HasRole env a w userID roleName =
     (case uuid_Parse env userID of
        (uid, Some err) \<Rightarrow> ((False, Some (Wrapf ''invalid user ID'' err)), a, w)
      | (uid, None) \<Rightarrow>
          (case db_get_role_exists env (db w) uid roleName of
             ((exists, err), d') \<Rightarrow>
               (let w' = w\<lparr>db := d', calls := calls w @ [CallGetRoleExists uid roleName]\<rparr> in
                case err of
                  Some e \<Rightarrow> ((False, Some (Wrapf ''failed to check role'' e)), a, w')
                | None \<Rightarrow> ((exists, None), a, w'))))"

definition GetUserRoles ::
  "'db env \<Rightarrow> Authorizer \<Rightarrow> 'db world \<Rightarrow> string
     \<Rightarrow> (string list \<times> error option) \<times> Authorizer \<times> 'db world" where
  "GetUserRoles env a w userID =
     (case uuid_Parse env userID of
        (uid, Some err) \<Rightarrow> (([], Some (Wrapf ''invalid user ID'' err)), a, w)
      | (uid, None) \<Rightarrow>
          (case db_select_roles env (db w) uid of
             ((roles, err), d') \<Rightarrow>
               (let w' = w\<lparr>db := d', calls := calls w @ [CallSelectRoles uid]\<rparr> in
                case err of
                  Some e \<Rightarrow> (([], Some (Wrapf ''failed to get user roles'' e)), a, w')
                | None \<Rightarrow> ((roles, None), a, w'))))"

section \<open>The mutation API\<close>

definition AssignRole ::
  "'db env \<Rightarrow> Authorizer \<Rightarrow> 'db world \<Rightarrow> string \<Rightarrow> string
     \<Rightarrow> error option \<times> Authorizer \<times> 'db world" where
  "AssignRole env a w userID roleName =
     (case uuid_Parse env userID of
        (uid, Some err) \<Rightarrow> (Some (Wrapf ''invalid user ID'' err), a, w)
      | (uid, None) \<Rightarrow>
          (case db_exec_assign env (db w) uid roleName of
             (err, d') \<Rightarrow>
               (let w' = w\<lparr>db := d', calls := calls w @ [CallExecAssign uid roleName]\<rparr> in
                case err of
                  Some e \<Rightarrow> (Some (Wrapf ''failed to assign role'' e), a, w')
                | None \<Rightarrow> (None, invalidateCache a userID, w'))))"

definition RemoveRole ::
  "'db env \<Rightarrow> Authorizer \<Rightarrow> 'db world \<Rightarrow> string \<Rightarrow> string
     \<Rightarrow> error option \<times> Authorizer \<times> 'db world" where
  "RemoveRole env a w userID roleName =
     (case uuid_Parse env userID of
        (uid, Some err) \<Rightarrow> (Some (Wrapf ''invalid user ID'' err), a, w)
      | (uid, None) \<Rightarrow>
          (case db_exec_remove env (db w) uid roleName of
             (err, d') \<Rightarrow>
               (let w' = w\<lparr>db := d', calls := calls w @ [CallExecRemove uid roleName]\<rparr> in
                case err of
                  Some e \<Rightarrow> (Some (Wrapf ''failed to remove role'' e), a, w')
                | None \<Rightarrow> (None, invalidateCache a userID, w'))))"

section \<open>Running every check of a list\<close>

text \<open>
  The reference for the two composite checks: \<open>checkEach\<close> calls \<open>HasPermission\<close> for
  every name of the list, in order and with no early exit, and keeps each result with the
  state it left. \<open>stateAfter\<close> is the state after the last call of such a run.
\<close>

fun checkEach ::
  "'db env \<Rightarrow> Authorizer \<Rightarrow> 'db world \<Rightarrow> string \<Rightarrow> string list
     \<Rightarrow> ((bool \<times> error option) \<times> Authorizer \<times> 'db world) list" where
  "checkEach env a w userID [] = []"
| "checkEach env a w userID (permissionName # rest) =
     (case HasPermission env a w userID permissionName of
        (r, a', w') \<Rightarrow> (r, a', w') # checkEach env a' w' userID rest)"

definition stateAfter :: "'s \<Rightarrow> ('r \<times> 's) list \<Rightarrow> 's" where
  "stateAfter s0 rs = (if rs = [] then s0 else snd (last rs))"

section \<open>A small database for the examples\<close>

text \<open>
  One table of (user, role name) rows, the role \<open>user\<close> granting \<open>user.read\<close> and
  \<open>user.update\<close>, and a switch that makes every statement fail as an unreachable
  database does. The parser accepts one identifier; the clock advances one minute per
  reading.
\<close>

record demo_db =
  assignments :: "(UUID \<times> string) list"
  down :: bool

definition user_read :: Permission where
  "user_read = \<lparr>Name = ''user.read'', Resource = ''user'', Action = ''read''\<rparr>"

definition user_update :: Permission where
  "user_update = \<lparr>Name = ''user.update'', Resource = ''user'', Action = ''update''\<rparr>"

definition demo_role_permissions :: "string \<Rightarrow> Permission list" where
  "demo_role_permissions roleName = (if roleName = ''user'' then [user_read, user_update] else [])"

definition demo_unreachable :: error where
  "demo_unreachable = ErrOther ''connection refused''"

definition demo_roles_of :: "demo_db \<Rightarrow> UUID \<Rightarrow> string list" where
  "demo_roles_of d uid = map snd (filter (\<lambda>row. fst row = uid) (assignments d))"

definition demo_select_permissions ::
  "demo_db \<Rightarrow> UUID \<Rightarrow> (Permission list \<times> error option) \<times> demo_db" where
  "demo_select_permissions d uid =
     (if down d then (([], Some demo_unreachable), d)
      else ((remdups (concat (map demo_role_permissions (demo_roles_of d uid))), None), d))"

definition demo_get_role_exists ::
  "demo_db \<Rightarrow> UUID \<Rightarrow> string \<Rightarrow> (bool \<times> error option) \<times> demo_db" where
  "demo_get_role_exists d uid roleName =
     (if down d then ((False, Some demo_unreachable), d)
      else ((roleName \<in> set (demo_roles_of d uid), None), d))"

definition demo_select_roles ::
  "demo_db \<Rightarrow> UUID \<Rightarrow> (string list \<times> error option) \<times> demo_db" where
  "demo_select_roles d uid =
     (if down d then (([], Some demo_unreachable), d) else ((demo_roles_of d uid, None), d))"

definition demo_exec_assign :: "demo_db \<Rightarrow> UUID \<Rightarrow> string \<Rightarrow> error option \<times> demo_db" where
  "demo_exec_assign d uid roleName =
     (if down d then (Some demo_unreachable, d)
      else if roleName \<in> set (demo_roles_of d uid) then (None, d)
      else (None, d\<lparr>assignments := assignments d @ [(uid, roleName)]\<rparr>))"

definition demo_exec_remove :: "demo_db \<Rightarrow> UUID \<Rightarrow> string \<Rightarrow> error option \<times> demo_db" where
  "demo_exec_remove d uid roleName =
     (if down d then (Some demo_unreachable, d)
      else (None, d\<lparr>assignments := filter (\<lambda>row. row \<noteq> (uid, roleName)) (assignments d)\<rparr>))"

definition demo_user :: string where
  "demo_user = ''6ba7b810-9dad-11d1-80b4-00c04fd430c8''"

definition demo_uid :: UUID where
  "demo_uid = [0x6b, 0xa7, 0xb8, 0x10, 0x9d, 0xad, 0x11, 0xd1,
               0x80, 0xb4, 0x00, 0xc0, 0x4f, 0xd4, 0x30, 0xc8]"

definition demo_Parse :: "string \<Rightarrow> UUID \<times> error option" where
  "demo_Parse s =
     (if s = demo_user then (demo_uid, None)
      else (replicate 16 0, Some (ErrOther ''invalid UUID length'')))"

definition demo_clock :: "nat \<Rightarrow> int" where
  "demo_clock n = int n * Minute"

definition demo_env :: "demo_db env" where
  "demo_env =
     \<lparr>uuid_Parse = demo_Parse, time_Now = demo_clock,
      db_select_permissions = demo_select_permissions,
      db_get_role_exists = demo_get_role_exists,
      db_select_roles = demo_select_roles,
      db_exec_assign = demo_exec_assign,
      db_exec_remove = demo_exec_remove\<rparr>"

definition demo_world :: "demo_db world" where
  "demo_world = \<lparr>db = \<lparr>assignments = [(demo_uid, ''user'')], down = False\<rparr>, calls = [], ticks = 0\<rparr>"

definition warm_authorizer :: Authorizer where
  "warm_authorizer =
     fst (snd (HasPermission demo_env (NewAuthorizer 5) demo_world demo_user ''user.read''))"

definition warm_world :: "demo_db world" where
  "warm_world =
     snd (snd (HasPermission demo_env (NewAuthorizer 5) demo_world demo_user ''user.read''))"

text \<open>Two more states of the example database: the role revoked, and the database
  unreachable.\<close>

definition revoked_db :: demo_db where
  "revoked_db = \<lparr>assignments = [], down = False\<rparr>"

definition outage_db :: demo_db where
  "outage_db = \<lparr>assignments = [(demo_uid, ''user'')], down = True\<rparr>"

text \<open>A second user, and a cache with two entries of different age.\<close>

definition other_user :: string where
  "other_user = ''6ba7b811-9dad-11d1-80b4-00c04fd430c8''"

definition two_users :: Authorizer where
  "two_users =
     \<lparr>cache = [demo_user \<mapsto> \<lparr>Permissions = [user_read, user_update], LoadedAt = 0\<rparr>,
               other_user \<mapsto> \<lparr>Permissions = [user_read], LoadedAt = 4 * Minute\<rparr>],
      cacheTTL = CacheTTL 5, enableCaching = True\<rparr>"

section \<open>Evaluation and basic facts\<close>

lemmas demo_defs =
  demo_env_def demo_world_def demo_Parse_def demo_clock_def demo_select_permissions_def
  demo_get_role_exists_def demo_select_roles_def demo_exec_assign_def demo_exec_remove_def
  demo_roles_of_def demo_role_permissions_def demo_unreachable_def user_read_def
  user_update_def demo_user_def demo_uid_def Minute_def CacheTTL_def NewAuthorizer_def
  revoked_db_def outage_db_def

lemmas authorizer_defs =
  HasPermission_def checkCache_def updateCache_def loadUserPermissions_def readClock_def
  invalidateCache_def SetCacheTTL_def EnableCache_def DisableCache_def

lemma demo_first_call:
  "HasPermission demo_env (NewAuthorizer 5) demo_world demo_user ''user.read'' =
     ((True, None),
      \<lparr>cache = [demo_user \<mapsto> \<lparr>Permissions = [user_read, user_update], LoadedAt = 0\<rparr>],
       cacheTTL = 300000000000, enableCaching = True\<rparr>,
      \<lparr>db = \<lparr>assignments = [(demo_uid, ''user'')], down = False\<rparr>,
       calls = [CallSelectPermissions demo_uid], ticks = 1\<rparr>)"
  by (simp add: authorizer_defs demo_defs)

lemma warm_authorizer_eq:
  "warm_authorizer =
     \<lparr>cache = [demo_user \<mapsto> \<lparr>Permissions = [user_read, user_update], LoadedAt = 0\<rparr>],
      cacheTTL = 300000000000, enableCaching = True\<rparr>"
  by (simp add: warm_authorizer_def demo_first_call)

lemma warm_world_eq:
  "warm_world =
     \<lparr>db = \<lparr>assignments = [(demo_uid, ''user'')], down = False\<rparr>,
      calls = [CallSelectPermissions demo_uid], ticks = 1\<rparr>"
  by (simp add: warm_world_def demo_first_call)

lemma scanName_iff: "scanName ps n \<longleftrightarrow> n \<in> Name ` set ps"
  by (induction ps) auto

lemma checkCache_found:
  "snd (fst (checkCache env a w userID p)) \<longleftrightarrow>
     (\<exists>up. cache a userID = Some up \<and> time_Now env (ticks w) - LoadedAt up \<le> cacheTTL a)"
  by (auto simp: checkCache_def readClock_def split: option.splits)

lemma checkCache_answer:
  "cache a userID = Some up \<Longrightarrow> time_Now env (ticks w) - LoadedAt up \<le> cacheTTL a \<Longrightarrow>
     fst (checkCache env a w userID p) = (scanName (Permissions up) p, True)"
  by (simp add: checkCache_def readClock_def)

lemma checkCache_db: "db (snd (checkCache env a w userID p)) = db w"
  by (auto simp: checkCache_def readClock_def split: option.splits)

lemma loadUserPermissions_db_only:
  "db w1 = db w2 \<Longrightarrow>
     fst (loadUserPermissions env w1 uid) = fst (loadUserPermissions env w2 uid)"
  by (auto simp: loadUserPermissions_def Let_def split: prod.splits option.splits)

lemma HasPermission_miss_calls:
  assumes "uuid_Parse env userID = (uid, None)" and "cache a userID = None"
  shows "calls (snd (snd (HasPermission env a w userID p))) =
           calls w @ [CallSelectPermissions uid]"
  using assms
  by (auto simp: HasPermission_def checkCache_def loadUserPermissions_def updateCache_def
      readClock_def Let_def split: prod.splits option.splits)

lemma stateAfter_Cons: "stateAfter s0 ((r, s) # rs) = stateAfter s rs"
  by (simp add: stateAfter_def)

lemma cleanLoop_frame:
  "cacheTTL (cleanLoop now order a) = cacheTTL a \<and>
   enableCaching (cleanLoop now order a) = enableCaching a"
  by (induction order arbitrary: a) (auto split: option.splits)

lemma cleanLoop_cache:
  "cache (cleanLoop now order a) k =
     (case cache a k of
        None \<Rightarrow> None
      | Some up \<Rightarrow>
          if k \<in> set order \<and> now - LoadedAt up > cacheTTL a then None else Some up)"
  by (induction order arbitrary: a) (auto split: option.splits)

section \<open>Validity of an entry\<close>

text \<open>
  C1, as stated: an entry answers a lookup only while its age is strictly less than the
  TTL. The code compares with \<open>time.Since(LoadedAt) > cacheTTL\<close>, so an entry whose age
  equals the TTL is still a hit. In the example the entry was loaded at reading 0 with a
  TTL of five minutes; at the reading of minute 5 its age is not below the TTL, the
  database no longer grants the permission, and \<open>HasPermission\<close> still answers \<open>true\<close>
  from the entry without a statement sent to the database.
\<close>

theorem C1_strict_bound_counterexample:
  "cache warm_authorizer demo_user =
     Some \<lparr>Permissions = [user_read, user_update], LoadedAt = 0\<rparr> \<and>
   \<not> (time_Now demo_env 5 - 0 < cacheTTL warm_authorizer) \<and>
   HasPermission demo_env warm_authorizer (warm_world\<lparr>db := revoked_db, ticks := 5\<rparr>)
       demo_user ''user.read''
     = ((True, None), warm_authorizer, warm_world\<lparr>db := revoked_db, ticks := 6\<rparr>)"
  by (simp add: warm_authorizer_eq warm_world_eq authorizer_defs demo_defs)

text \<open>
  C1, amended: \<open>checkCache\<close> reports a hit exactly when the user has an entry whose age
  (the clock reading minus \<open>LoadedAt\<close>) is at most the current TTL. A lookup at a reading
  later than \<open>LoadedAt + TTL\<close> sends the permission query to the database, and its
  result is the one the same call gives with that entry removed.
\<close>

theorem C1_ttl_validity:
  "(snd (fst (checkCache env a w userID p)) \<longleftrightarrow>
      (\<exists>up. cache a userID = Some up \<and> time_Now env (ticks w) - LoadedAt up \<le> cacheTTL a)) \<and>
   (uuid_Parse env userID = (uid, None) \<and> cache a userID = Some up \<and>
    time_Now env (ticks w) > LoadedAt up + cacheTTL a \<longrightarrow>
      calls (snd (snd (HasPermission env a w userID p))) =
        calls w @ [CallSelectPermissions uid] \<and>
      fst (HasPermission env a w userID p) =
        fst (HasPermission env (invalidateCache a userID) w userID p))"
proof (intro conjI impI)
  show "snd (fst (checkCache env a w userID p)) \<longleftrightarrow>
      (\<exists>up. cache a userID = Some up \<and> time_Now env (ticks w) - LoadedAt up \<le> cacheTTL a)"
    by (rule checkCache_found)
next
  assume h: "uuid_Parse env userID = (uid, None) \<and> cache a userID = Some up \<and>
    time_Now env (ticks w) > LoadedAt up + cacheTTL a"
  then show "calls (snd (snd (HasPermission env a w userID p))) =
      calls w @ [CallSelectPermissions uid]"
    by (auto simp: authorizer_defs Let_def split: prod.splits option.splits)
  from h show "fst (HasPermission env a w userID p) =
      fst (HasPermission env (invalidateCache a userID) w userID p)"
    by (auto simp: authorizer_defs Let_def split: prod.splits option.splits)
qed

theorem C1_ttl_validity_witness:
  "\<not> snd (fst (checkCache demo_env warm_authorizer (warm_world\<lparr>ticks := 6\<rparr>)
                 demo_user ''user.read'')) \<and>
   calls (snd (snd (HasPermission demo_env warm_authorizer (warm_world\<lparr>ticks := 6\<rparr>)
                      demo_user ''user.read'')))
     = [CallSelectPermissions demo_uid, CallSelectPermissions demo_uid]"
  using C1_ttl_validity [of demo_env warm_authorizer "warm_world\<lparr>ticks := 6\<rparr>" demo_user
      "''user.read''" demo_uid "\<lparr>Permissions = [user_read, user_update], LoadedAt = 0\<rparr>"]
  by (simp add: warm_authorizer_eq warm_world_eq demo_defs)

section \<open>Caching enabled against caching disabled\<close>

text \<open>
  C2, as stated: for the same database state the result is the same with caching enabled
  and disabled. In the example the first call filled the cache while the user held the
  role; the role is then revoked in the database. One minute later the call with caching
  enabled answers \<open>true\<close> from the entry, the call with caching disabled answers
  \<open>false\<close> from the database.
\<close>

theorem C2_stale_entry_counterexample:
  "fst (HasPermission demo_env (EnableCache warm_authorizer)
          (warm_world\<lparr>db := revoked_db\<rparr>) demo_user ''user.read'') = (True, None) \<and>
   fst (HasPermission demo_env (DisableCache warm_authorizer)
          (warm_world\<lparr>db := revoked_db\<rparr>) demo_user ''user.read'') = (False, None)"
  by (simp add: warm_authorizer_eq warm_world_eq authorizer_defs demo_defs)

text \<open>
  C2, amended: for the same database state, \<open>HasPermission\<close> returns the same result with
  caching enabled and with caching disabled whenever the cache has no entry for the user
  that is still within the TTL, or the load from the database succeeds with the
  permission names of that entry. A new Authorizer, whose cache is empty, is such a
  state.
\<close>

theorem C2_cache_transparency:
  assumes coherent:
    "\<And>up. cache a userID = Some up \<Longrightarrow>
       time_Now env (ticks w) - LoadedAt up \<le> cacheTTL a \<Longrightarrow>
       \<exists>ps. fst (loadUserPermissions env w (fst (uuid_Parse env userID))) = (ps, None) \<and>
            Name ` set ps = Name ` set (Permissions up)"
  shows "fst (HasPermission env (EnableCache a) w userID p) =
         fst (HasPermission env (DisableCache a) w userID p)"
proof -
  obtain uid perr where parse: "uuid_Parse env userID = (uid, perr)"
    by (metis prod.exhaust)
  show ?thesis
  proof (cases perr)
    case (Some e)
    with parse show ?thesis
      by (simp add: HasPermission_def EnableCache_def DisableCache_def)
  next
    case None
    note ok = parse [unfolded None]
    obtain ps lerr w2 where load: "loadUserPermissions env w uid = ((ps, lerr), w2)"
      by (metis prod.exhaust)
    have off: "fst (HasPermission env (DisableCache a) w userID p) =
        (case lerr of None \<Rightarrow> (scanName ps p, None)
         | Some e \<Rightarrow> (False, Some (Wrapf ''failed to load user permissions'' e)))"
      using ok load by (simp add: HasPermission_def DisableCache_def split: option.splits)
    obtain hp found w1 where cc: "checkCache env (EnableCache a) w userID p = ((hp, found), w1)"
      by (metis prod.exhaust)
    have dbw1: "db w1 = db w"
      using checkCache_db [of env "EnableCache a" w userID p] cc by simp
    show ?thesis
    proof (cases found)
      case True
      then have "snd (fst (checkCache env (EnableCache a) w userID p))"
        using cc by simp
      then obtain up where up: "cache a userID = Some up"
          "time_Now env (ticks w) - LoadedAt up \<le> cacheTTL a"
        by (auto simp: checkCache_found EnableCache_def)
      then have "fst (checkCache env (EnableCache a) w userID p) =
          (scanName (Permissions up) p, True)"
        by (intro checkCache_answer) (simp_all add: EnableCache_def)
      then have hp: "hp = scanName (Permissions up) p"
        using cc by simp
      obtain qs where qs: "fst (loadUserPermissions env w uid) = (qs, None)"
          "Name ` set qs = Name ` set (Permissions up)"
        using coherent [OF up] ok by auto
      then have "ps = qs" "lerr = None"
        using load by simp_all
      then have "fst (HasPermission env (DisableCache a) w userID p) = (scanName ps p, None)"
        using off by simp
      moreover have "fst (HasPermission env (EnableCache a) w userID p) = (hp, None)"
        using ok cc True by (simp add: HasPermission_def EnableCache_def)
      moreover have "scanName ps p = hp"
        using hp qs(2) \<open>ps = qs\<close> by (simp add: scanName_iff)
      ultimately show ?thesis by simp
    next
      case False
      have "fst (loadUserPermissions env w1 uid) = (ps, lerr)"
        using loadUserPermissions_db_only [OF dbw1, of env uid] load by simp
      then obtain w3 where load1: "loadUserPermissions env w1 uid = ((ps, lerr), w3)"
        by (metis prod.collapse)
      have en: "enableCaching (EnableCache a)"
        by (simp add: EnableCache_def)
      have "fst (HasPermission env (EnableCache a) w userID p) =
          (case lerr of None \<Rightarrow> (scanName ps p, None)
           | Some e \<Rightarrow> (False, Some (Wrapf ''failed to load user permissions'' e)))"
        using ok cc False load1 en
        by (simp add: HasPermission_def split: option.splits prod.splits)
      then show ?thesis using off by simp
    qed
  qed
qed

theorem C2_cache_transparency_witness:
  "fst (HasPermission demo_env (EnableCache warm_authorizer) warm_world
          demo_user ''user.update'') = (True, None) \<and>
   fst (HasPermission demo_env (DisableCache warm_authorizer) warm_world
          demo_user ''user.update'') = (True, None) \<and>
   fst (HasPermission demo_env (EnableCache (NewAuthorizer 5)) demo_world
          demo_user ''user.delete'') =
   fst (HasPermission demo_env (DisableCache (NewAuthorizer 5)) demo_world
          demo_user ''user.delete'')"
proof -
  have 1: "fst (HasPermission demo_env (EnableCache warm_authorizer) warm_world
          demo_user ''user.update'') =
        fst (HasPermission demo_env (DisableCache warm_authorizer) warm_world
          demo_user ''user.update'')"
    by (rule C2_cache_transparency)
      (simp add: warm_authorizer_eq warm_world_eq loadUserPermissions_def demo_defs)
  have 2: "fst (HasPermission demo_env (DisableCache warm_authorizer) warm_world
          demo_user ''user.update'') = (True, None)"
    by (simp add: warm_authorizer_eq warm_world_eq authorizer_defs demo_defs)
  have 3: "fst (HasPermission demo_env (EnableCache (NewAuthorizer 5)) demo_world
          demo_user ''user.delete'') =
        fst (HasPermission demo_env (DisableCache (NewAuthorizer 5)) demo_world
          demo_user ''user.delete'')"
    by (rule C2_cache_transparency) (simp add: NewAuthorizer_def)
  show ?thesis using 1 2 3 by simp
qed

section \<open>A failed load\<close>

text \<open>
  C3: when the lookup is not answered by the cache (caching is disabled, or
  \<open>checkCache\<close> reports no hit) and the load of the user's permissions from the database
  fails with an error \<open>e\<close> (a cancelled context is such an error), \<open>HasPermission\<close>
  returns \<open>false\<close> with \<open>e\<close> wrapped as "failed to load user permissions", and the
  Authorizer, its cache included, is exactly as before the call.
\<close>

theorem C3_failed_load_leaves_cache:
  assumes parse: "uuid_Parse env userID = (uid, None)"
    and miss: "\<not> (enableCaching a \<and> snd (fst (checkCache env a w userID p)))"
    and fails: "fst (loadUserPermissions env w uid) = (ps, Some e)"
  shows "fst (HasPermission env a w userID p) =
           (False, Some (Wrapf ''failed to load user permissions'' e)) \<and>
         fst (snd (HasPermission env a w userID p)) = a \<and>
         calls (snd (snd (HasPermission env a w userID p))) =
           calls w @ [CallSelectPermissions uid]"
proof -
  define w1 where "w1 = (if enableCaching a then snd (checkCache env a w userID p) else w)"
  have dbw1: "db w1 = db w"
    by (simp add: w1_def checkCache_db)
  have cw1: "calls w1 = calls w"
    by (auto simp: w1_def checkCache_def readClock_def split: option.splits)
  have "fst (loadUserPermissions env w1 uid) = (ps, Some e)"
    using fails loadUserPermissions_db_only [OF dbw1, of env uid] by simp
  then obtain w2 where l: "loadUserPermissions env w1 uid = ((ps, Some e), w2)"
    by (metis prod.collapse)
  have cw2: "calls w2 = calls w @ [CallSelectPermissions uid]"
    using l cw1
    by (auto simp: loadUserPermissions_def Let_def split: prod.splits option.splits if_splits)
  show ?thesis
  proof (cases "enableCaching a")
    case True
    then obtain hp where c: "checkCache env a w userID p = ((hp, False), w1)"
      using miss w1_def by (metis (full_types) prod.collapse)
    show ?thesis using parse True c l cw2 by (simp add: HasPermission_def)
  next
    case False
    then have "w1 = w" by (simp add: w1_def)
    then show ?thesis using parse False l cw2 by (simp add: HasPermission_def)
  qed
qed

theorem C3_failed_load_leaves_cache_witness:
  "fst (HasPermission demo_env warm_authorizer (warm_world\<lparr>db := outage_db, ticks := 6\<rparr>)
          demo_user ''user.read'')
     = (False, Some (Wrapf ''failed to load user permissions'' (ErrOther ''connection refused''))) \<and>
   fst (snd (HasPermission demo_env warm_authorizer (warm_world\<lparr>db := outage_db, ticks := 6\<rparr>)
          demo_user ''user.read'')) = warm_authorizer \<and>
   cache warm_authorizer demo_user =
     Some \<lparr>Permissions = [user_read, user_update], LoadedAt = 0\<rparr>"
proof -
  have parse: "uuid_Parse demo_env demo_user = (demo_uid, None)"
    by (simp add: demo_defs)
  have miss: "\<not> (enableCaching warm_authorizer \<and>
      snd (fst (checkCache demo_env warm_authorizer (warm_world\<lparr>db := outage_db, ticks := 6\<rparr>)
                 demo_user ''user.read'')))"
    by (simp add: warm_authorizer_eq warm_world_eq checkCache_def readClock_def demo_defs)
  have fails: "fst (loadUserPermissions demo_env (warm_world\<lparr>db := outage_db, ticks := 6\<rparr>)
      demo_uid) = ([], Some (ErrOther ''connection refused''))"
    by (simp add: warm_world_eq loadUserPermissions_def demo_defs)
  show ?thesis
    using C3_failed_load_leaves_cache [OF parse miss fails]
    by (simp add: warm_authorizer_eq)
qed

section \<open>Role mutations invalidate the entry\<close>

text \<open>
  C4: when \<open>AssignRole\<close> or \<open>RemoveRole\<close> returns no error (the statement was executed by
  the database), the Authorizer it leaves has no cache entry under that user ID, so the
  next \<open>HasPermission\<close> for that user ID sends the permission query to the database,
  whatever the age of the entry was. When the operation returns an error, the Authorizer
  is unchanged: the entry is not deleted.
\<close>

theorem C4_mutation_invalidates:
  "(fst (AssignRole env a w userID r) = None \<longrightarrow>
      cache (fst (snd (AssignRole env a w userID r))) userID = None \<and>
      calls (snd (snd (HasPermission env (fst (snd (AssignRole env a w userID r))) w2 userID p)))
        = calls w2 @ [CallSelectPermissions (fst (uuid_Parse env userID))]) \<and>
   (fst (AssignRole env a w userID r) \<noteq> None \<longrightarrow>
      fst (snd (AssignRole env a w userID r)) = a) \<and>
   (fst (RemoveRole env a w userID r) = None \<longrightarrow>
      cache (fst (snd (RemoveRole env a w userID r))) userID = None \<and>
      calls (snd (snd (HasPermission env (fst (snd (RemoveRole env a w userID r))) w2 userID p)))
        = calls w2 @ [CallSelectPermissions (fst (uuid_Parse env userID))]) \<and>
   (fst (RemoveRole env a w userID r) \<noteq> None \<longrightarrow>
      fst (snd (RemoveRole env a w userID r)) = a)"
proof -
  obtain uid perr where parse: "uuid_Parse env userID = (uid, perr)"
    by (metis prod.exhaust)
  have inv: "cache (invalidateCache a userID) userID = None"
    by (simp add: invalidateCache_def)
  show ?thesis
  proof (cases perr)
    case (Some e)
    with parse show ?thesis
      by (simp add: AssignRole_def RemoveRole_def)
  next
    case None
    note ok = parse [unfolded None]
    have next_call: "calls (snd (snd (HasPermission env (invalidateCache a userID) w2 userID p)))
        = calls w2 @ [CallSelectPermissions uid]"
      by (rule HasPermission_miss_calls [OF ok inv])
    have assign: "(fst (AssignRole env a w userID r) = None \<longrightarrow>
          fst (snd (AssignRole env a w userID r)) = invalidateCache a userID) \<and>
        (fst (AssignRole env a w userID r) \<noteq> None \<longrightarrow>
          fst (snd (AssignRole env a w userID r)) = a)"
      using ok by (auto simp: AssignRole_def Let_def split: prod.splits option.splits)
    have remove: "(fst (RemoveRole env a w userID r) = None \<longrightarrow>
          fst (snd (RemoveRole env a w userID r)) = invalidateCache a userID) \<and>
        (fst (RemoveRole env a w userID r) \<noteq> None \<longrightarrow>
          fst (snd (RemoveRole env a w userID r)) = a)"
      using ok by (auto simp: RemoveRole_def Let_def split: prod.splits option.splits)
    show ?thesis
      using assign remove next_call inv ok by auto
  qed
qed

theorem C4_mutation_invalidates_witness:
  "cache warm_authorizer demo_user \<noteq> None \<and>
   fst (AssignRole demo_env warm_authorizer warm_world demo_user ''admin'') = None \<and>
   cache (fst (snd (AssignRole demo_env warm_authorizer warm_world demo_user ''admin'')))
     demo_user = None \<and>
   calls (snd (snd (HasPermission demo_env
       (fst (snd (AssignRole demo_env warm_authorizer warm_world demo_user ''admin'')))
       (snd (snd (AssignRole demo_env warm_authorizer warm_world demo_user ''admin'')))
       demo_user ''user.read'')))
     = [CallSelectPermissions demo_uid, CallExecAssign demo_uid ''admin'',
        CallSelectPermissions demo_uid] \<and>
   fst (RemoveRole demo_env warm_authorizer (warm_world\<lparr>db := outage_db\<rparr>) demo_user ''user'')
     \<noteq> None \<and>
   fst (snd (RemoveRole demo_env warm_authorizer (warm_world\<lparr>db := outage_db\<rparr>)
               demo_user ''user'')) = warm_authorizer"
proof -
  have ok: "fst (AssignRole demo_env warm_authorizer warm_world demo_user ''admin'') = None"
    by (simp add: AssignRole_def warm_world_eq demo_defs)
  have w': "calls (snd (snd (AssignRole demo_env warm_authorizer warm_world demo_user ''admin'')))
      = [CallSelectPermissions demo_uid, CallExecAssign demo_uid ''admin'']"
    by (simp add: AssignRole_def warm_world_eq demo_defs)
  have uid: "fst (uuid_Parse demo_env demo_user) = demo_uid"
    by (simp add: demo_defs)
  have bad: "fst (RemoveRole demo_env warm_authorizer (warm_world\<lparr>db := outage_db\<rparr>)
      demo_user ''user'') \<noteq> None"
    by (simp add: RemoveRole_def warm_world_eq demo_defs)
  have entry: "cache warm_authorizer demo_user \<noteq> None"
    by (simp add: warm_authorizer_eq)
  show ?thesis
    using ok w' uid bad entry
      C4_mutation_invalidates [of demo_env warm_authorizer warm_world demo_user "''admin''"
        "snd (snd (AssignRole demo_env warm_authorizer warm_world demo_user ''admin''))"
        "''user.read''"]
      C4_mutation_invalidates [of demo_env warm_authorizer "warm_world\<lparr>db := outage_db\<rparr>"
        demo_user "''user''"]
    by simp
qed

section \<open>The composite checks\<close>

text \<open>
  C5: \<open>HasAnyPermission\<close> calls \<open>HasPermission\<close> for the names in order and stops at the
  first call that matches or fails: its result is \<open>(true, nil)\<close> for a match and
  \<open>(false, err)\<close> for an error, in the state that call left, and \<open>(false, nil)\<close> in the
  state after the last call when every call returned \<open>(false, nil)\<close>.
  \<open>HasAllPermissions\<close> stops at the first call that does not match or fails, with
  \<open>(false, nil)\<close> or \<open>(false, err)\<close>, and returns \<open>(true, nil)\<close> when every call
  returned \<open>(true, nil)\<close>. Both are stated against \<open>checkEach\<close>, the run of all the calls.
\<close>

theorem C5_composition:
  "HasAnyPermission env a w userID names =
     (case dropWhile (\<lambda>r. fst r = (False, None)) (checkEach env a w userID names) of
        [] \<Rightarrow> ((False, None), stateAfter (a, w) (checkEach env a w userID names))
      | (r, s) # _ \<Rightarrow>
          ((case snd r of None \<Rightarrow> (True, None) | Some err \<Rightarrow> (False, Some err)), s)) \<and>
   HasAllPermissions env a w userID names =
     (case dropWhile (\<lambda>r. fst r = (True, None)) (checkEach env a w userID names) of
        [] \<Rightarrow> ((True, None), stateAfter (a, w) (checkEach env a w userID names))
      | (r, s) # _ \<Rightarrow> ((False, snd r), s))"
proof (induction names arbitrary: a w)
  case Nil
  show ?case by (simp add: stateAfter_def)
next
  case (Cons n ns)
  obtain b err a' w' where hp: "HasPermission env a w userID n = ((b, err), a', w')"
    by (metis prod.exhaust)
  have ce: "checkEach env a w userID (n # ns) =
      ((b, err), a', w') # checkEach env a' w' userID ns"
    using hp by simp
  have sa: "stateAfter (a, w) (checkEach env a w userID (n # ns)) =
      stateAfter (a', w') (checkEach env a' w' userID ns)"
    unfolding ce by (simp add: stateAfter_Cons)
  have any: "HasAnyPermission env a w userID (n # ns) =
     (case dropWhile (\<lambda>r. fst r = (False, None)) (checkEach env a w userID (n # ns)) of
        [] \<Rightarrow> ((False, None), stateAfter (a, w) (checkEach env a w userID (n # ns)))
      | (r, s) # _ \<Rightarrow>
          ((case snd r of None \<Rightarrow> (True, None) | Some err \<Rightarrow> (False, Some err)), s))"
  proof (cases "(b, err) = (False, None)")
    case True
    then have run: "HasAnyPermission env a w userID (n # ns) =
        HasAnyPermission env a' w' userID ns"
      using hp by simp
    have dw: "dropWhile (\<lambda>r. fst r = (False, None)) (checkEach env a w userID (n # ns)) =
        dropWhile (\<lambda>r. fst r = (False, None)) (checkEach env a' w' userID ns)"
      unfolding ce using True by simp
    show ?thesis
      unfolding run dw sa using Cons.IH [of a' w'] by (rule conjunct1)
  next
    case False
    then have dw: "dropWhile (\<lambda>r. fst r = (False, None)) (checkEach env a w userID (n # ns)) =
        ((b, err), a', w') # checkEach env a' w' userID ns"
      unfolding ce by auto
    show ?thesis
      unfolding dw using hp False by (cases err; cases b) simp_all
  qed
  have all: "HasAllPermissions env a w userID (n # ns) =
     (case dropWhile (\<lambda>r. fst r = (True, None)) (checkEach env a w userID (n # ns)) of
        [] \<Rightarrow> ((True, None), stateAfter (a, w) (checkEach env a w userID (n # ns)))
      | (r, s) # _ \<Rightarrow> ((False, snd r), s))"
  proof (cases "(b, err) = (True, None)")
    case True
    then have run: "HasAllPermissions env a w userID (n # ns) =
        HasAllPermissions env a' w' userID ns"
      using hp by simp
    have dw: "dropWhile (\<lambda>r. fst r = (True, None)) (checkEach env a w userID (n # ns)) =
        dropWhile (\<lambda>r. fst r = (True, None)) (checkEach env a' w' userID ns)"
      unfolding ce using True by simp
    show ?thesis
      unfolding run dw sa using Cons.IH [of a' w'] by (rule conjunct2)
  next
    case False
    then have dw: "dropWhile (\<lambda>r. fst r = (True, None)) (checkEach env a w userID (n # ns)) =
        ((b, err), a', w') # checkEach env a' w' userID ns"
      unfolding ce by auto
    show ?thesis
      unfolding dw using hp False by (cases err; cases b) simp_all
  qed
  from any all show ?case by (rule conjI)
qed

text \<open>
  The example of C5: the user holds \<open>user.read\<close> and \<open>user.update\<close>. Asked for any of
  \<open>user.delete\<close>, \<open>user.read\<close>, \<open>user.update\<close>, the run stops at the second name, and
  asked for all of \<open>user.read\<close>, \<open>user.delete\<close>, \<open>user.update\<close> it stops at the second
  name too; with the database unreachable the first error is returned.
\<close>

theorem C5_composition_witness:
  "fst (HasAnyPermission demo_env (NewAuthorizer 5) demo_world demo_user
          [''user.delete'', ''user.read'', ''user.update'']) = (True, None) \<and>
   fst (HasAllPermissions demo_env (NewAuthorizer 5) demo_world demo_user
          [''user.read'', ''user.delete'', ''user.update'']) = (False, None) \<and>
   fst (HasAllPermissions demo_env (NewAuthorizer 5) demo_world demo_user
          [''user.read'', ''user.update'']) = (True, None) \<and>
   fst (HasAnyPermission demo_env (NewAuthorizer 5) (demo_world\<lparr>db := outage_db\<rparr>) demo_user
          [''user.delete'', ''user.read''])
     = (False, Some (Wrapf ''failed to load user permissions'' (ErrOther ''connection refused'')))"
  using
    C5_composition [of demo_env "NewAuthorizer 5" demo_world demo_user
      "[''user.delete'', ''user.read'', ''user.update'']"]
    C5_composition [of demo_env "NewAuthorizer 5" demo_world demo_user
      "[''user.read'', ''user.delete'', ''user.update'']"]
    C5_composition [of demo_env "NewAuthorizer 5" demo_world demo_user
      "[''user.read'', ''user.update'']"]
    C5_composition [of demo_env "NewAuthorizer 5" "demo_world\<lparr>db := outage_db\<rparr>" demo_user
      "[''user.delete'', ''user.read'']"]
  by (simp add: authorizer_defs demo_defs stateAfter_def)

section \<open>An identifier that does not parse\<close>

text \<open>
  C6: when \<open>uuid.Parse\<close> rejects the user ID with an error \<open>e\<close>, \<open>HasPermission\<close> returns
  \<open>false\<close> with \<open>e\<close> wrapped as "invalid user ID"; the world is the one it started in (no
  statement reached the database, no clock reading was taken) and the Authorizer is
  unchanged. The result does not mention the cache, so no entry was read.
\<close>

theorem C6_invalid_user_id:
  assumes "uuid_Parse env userID = (uid, Some e)"
  shows "HasPermission env a w userID p =
           ((False, Some (Wrapf ''invalid user ID'' e)), a, w) \<and>
         fst (HasPermission env a w userID p) = fst (HasPermission env a2 w userID p)"
  using assms by (simp add: HasPermission_def)

theorem C6_invalid_user_id_witness:
  "HasPermission demo_env warm_authorizer warm_world ''not-a-uuid'' ''x'' =
     ((False, Some (Wrapf ''invalid user ID'' (ErrOther ''invalid UUID length''))),
      warm_authorizer, warm_world)"
proof -
  have parse: "uuid_Parse demo_env ''not-a-uuid'' =
      (replicate 16 0, Some (ErrOther ''invalid UUID length''))"
    by (simp add: demo_defs)
  show ?thesis
    using C6_invalid_user_id [OF parse, of warm_authorizer warm_world "''x''" warm_authorizer]
    by simp
qed

section \<open>Roles are read from the database\<close>

text \<open>
  C7: for a user ID that parses, \<open>HasRole\<close> and \<open>GetUserRoles\<close> each send their query to
  the database, return the Authorizer unchanged, and return the same result and the same
  world for any two Authorizers, so no cache entry takes part in the answer.
\<close>

theorem C7_roles_bypass_cache:
  assumes "uuid_Parse env userID = (uid, None)"
  shows "fst (snd (HasRole env a w userID r)) = a \<and>
    calls (snd (snd (HasRole env a w userID r))) = calls w @ [CallGetRoleExists uid r] \<and>
    fst (HasRole env a w userID r) = fst (HasRole env a2 w userID r) \<and>
    snd (snd (HasRole env a w userID r)) = snd (snd (HasRole env a2 w userID r)) \<and>
    fst (snd (GetUserRoles env a w userID)) = a \<and>
    calls (snd (snd (GetUserRoles env a w userID))) = calls w @ [CallSelectRoles uid] \<and>
    fst (GetUserRoles env a w userID) = fst (GetUserRoles env a2 w userID) \<and>
    snd (snd (GetUserRoles env a w userID)) = snd (snd (GetUserRoles env a2 w userID))"
  using assms
  by (auto simp: HasRole_def GetUserRoles_def Let_def split: prod.splits option.splits)

text \<open>
  The example of C7: the cache holds a fresh entry for the user, the role has been
  revoked in the database, and \<open>HasRole\<close> answers from the database.
\<close>

theorem C7_roles_bypass_cache_witness:
  "cache warm_authorizer demo_user \<noteq> None \<and>
   HasRole demo_env warm_authorizer (warm_world\<lparr>db := revoked_db\<rparr>) demo_user ''user'' =
     ((False, None), warm_authorizer,
      warm_world\<lparr>db := revoked_db,
        calls := [CallSelectPermissions demo_uid, CallGetRoleExists demo_uid ''user'']\<rparr>) \<and>
   GetUserRoles demo_env warm_authorizer warm_world demo_user =
     (([''user''], None), warm_authorizer,
      warm_world\<lparr>calls := [CallSelectPermissions demo_uid, CallSelectRoles demo_uid]\<rparr>)"
proof -
  have parse: "uuid_Parse demo_env demo_user = (demo_uid, None)"
    by (simp add: demo_defs)
  have r1: "fst (HasRole demo_env (NewAuthorizer 5) (warm_world\<lparr>db := revoked_db\<rparr>)
      demo_user ''user'') = (False, None)"
    by (simp add: HasRole_def warm_world_eq demo_defs)
  have w1: "snd (snd (HasRole demo_env (NewAuthorizer 5) (warm_world\<lparr>db := revoked_db\<rparr>)
      demo_user ''user'')) = warm_world\<lparr>db := revoked_db,
        calls := [CallSelectPermissions demo_uid, CallGetRoleExists demo_uid ''user'']\<rparr>"
    by (simp add: HasRole_def warm_world_eq demo_defs)
  have r2: "fst (GetUserRoles demo_env (NewAuthorizer 5) warm_world demo_user)
      = ([''user''], None)"
    by (simp add: GetUserRoles_def warm_world_eq demo_defs)
  have w2: "snd (snd (GetUserRoles demo_env (NewAuthorizer 5) warm_world demo_user))
      = warm_world\<lparr>calls := [CallSelectPermissions demo_uid, CallSelectRoles demo_uid]\<rparr>"
    by (simp add: GetUserRoles_def warm_world_eq demo_defs)
  have entry: "cache warm_authorizer demo_user \<noteq> None"
    by (simp add: warm_authorizer_eq)
  show ?thesis
    using r1 w1 r2 w2 entry
      C7_roles_bypass_cache [OF parse, of warm_authorizer "warm_world\<lparr>db := revoked_db\<rparr>"
        "''user''" "NewAuthorizer 5"]
      C7_roles_bypass_cache [OF parse, of warm_authorizer warm_world "''user''" "NewAuthorizer 5"]
    by (simp add: prod_eq_iff)
qed

section \<open>The sweep\<close>

text \<open>
  C8: one pass of \<open>cleanExpiredCache\<close>, ranging over the keys of the cache in any order,
  deletes exactly the entries whose age (the clock reading of the pass minus
  \<open>LoadedAt\<close>) exceeds the TTL; every other entry is present and unchanged, no entry
  appears, and the TTL and the caching switch are unchanged.
\<close>

theorem C8_sweep:
  assumes "set order = dom (cache a)"
  shows "cache (fst (cleanExpiredCache env a w order)) k =
           (case cache a k of
              None \<Rightarrow> None
            | Some up \<Rightarrow>
                if time_Now env (ticks w) - LoadedAt up > cacheTTL a then None else Some up) \<and>
         cacheTTL (fst (cleanExpiredCache env a w order)) = cacheTTL a \<and>
         enableCaching (fst (cleanExpiredCache env a w order)) = enableCaching a"
  using assms
  by (auto simp: cleanExpiredCache_def readClock_def cleanLoop_cache cleanLoop_frame
      split: option.splits)

text \<open>
  The example of C8: two entries loaded at minute 0 and at minute 4, a TTL of five
  minutes, a pass at minute 6. The first entry is deleted, the second is kept as it is;
  the same holds for both orders of the range.
\<close>

theorem C8_sweep_witness:
  "cache (fst (cleanExpiredCache demo_env two_users (demo_world\<lparr>ticks := 6\<rparr>)
                 [demo_user, other_user])) demo_user = None \<and>
   cache (fst (cleanExpiredCache demo_env two_users (demo_world\<lparr>ticks := 6\<rparr>)
                 [demo_user, other_user])) other_user
     = Some \<lparr>Permissions = [user_read], LoadedAt = 4 * Minute\<rparr> \<and>
   cache (fst (cleanExpiredCache demo_env two_users (demo_world\<lparr>ticks := 6\<rparr>)
                 [other_user, demo_user])) demo_user = None \<and>
   cache (fst (cleanExpiredCache demo_env two_users (demo_world\<lparr>ticks := 6\<rparr>)
                 [other_user, demo_user])) other_user
     = Some \<lparr>Permissions = [user_read], LoadedAt = 4 * Minute\<rparr>"
proof -
  have d1: "set [demo_user, other_user] = dom (cache two_users)"
    by (auto simp: two_users_def demo_defs other_user_def)
  have d2: "set [other_user, demo_user] = dom (cache two_users)"
    by (auto simp: two_users_def demo_defs other_user_def)
  show ?thesis
    using C8_sweep [OF d1, of demo_env "demo_world\<lparr>ticks := 6\<rparr>" demo_user]
      C8_sweep [OF d1, of demo_env "demo_world\<lparr>ticks := 6\<rparr>" other_user]
      C8_sweep [OF d2, of demo_env "demo_world\<lparr>ticks := 6\<rparr>" demo_user]
      C8_sweep [OF d2, of demo_env "demo_world\<lparr>ticks := 6\<rparr>" other_user]
    by (simp add: two_users_def other_user_def demo_defs)
qed

section \<open>Changing the TTL\<close>

text \<open>
  C9: \<open>SetCacheTTL\<close> changes the TTL field only: the cache, with every entry and its
  \<open>LoadedAt\<close>, and the caching switch are as before. The next \<open>checkCache\<close> and the next
  pass of \<open>cleanExpiredCache\<close> compare the age of an entry with the new TTL.
\<close>

theorem C9_set_ttl:
  "cache (SetCacheTTL a ttl) = cache a \<and>
   enableCaching (SetCacheTTL a ttl) = enableCaching a \<and>
   cacheTTL (SetCacheTTL a ttl) = ttl \<and>
   (snd (fst (checkCache env (SetCacheTTL a ttl) w userID p)) \<longleftrightarrow>
      (\<exists>up. cache a userID = Some up \<and> time_Now env (ticks w) - LoadedAt up \<le> ttl)) \<and>
   (set order = dom (cache a) \<longrightarrow>
      cache (fst (cleanExpiredCache env (SetCacheTTL a ttl) w order)) k =
        (case cache a k of
           None \<Rightarrow> None
         | Some up \<Rightarrow> if time_Now env (ticks w) - LoadedAt up > ttl then None else Some up))"
proof (intro conjI impI)
  show "snd (fst (checkCache env (SetCacheTTL a ttl) w userID p)) \<longleftrightarrow>
      (\<exists>up. cache a userID = Some up \<and> time_Now env (ticks w) - LoadedAt up \<le> ttl)"
    by (simp add: checkCache_found SetCacheTTL_def)
next
  assume "set order = dom (cache a)"
  then show "cache (fst (cleanExpiredCache env (SetCacheTTL a ttl) w order)) k =
        (case cache a k of
           None \<Rightarrow> None
         | Some up \<Rightarrow> if time_Now env (ticks w) - LoadedAt up > ttl then None else Some up)"
    by (auto simp: cleanExpiredCache_def readClock_def cleanLoop_cache SetCacheTTL_def
        split: option.splits)
qed (simp_all add: SetCacheTTL_def)

text \<open>
  The example of C9: an entry loaded at minute 0 is a hit at minute 3 under a TTL of five
  minutes; after the TTL is set to two minutes the same entry, still stamped minute 0,
  is no hit at minute 3 and a pass of the sweep at minute 3 deletes it.
\<close>

theorem C9_set_ttl_witness:
  "snd (fst (checkCache demo_env warm_authorizer (warm_world\<lparr>ticks := 3\<rparr>)
               demo_user ''user.read'')) \<and>
   cache (SetCacheTTL warm_authorizer (2 * Minute)) demo_user =
     Some \<lparr>Permissions = [user_read, user_update], LoadedAt = 0\<rparr> \<and>
   \<not> snd (fst (checkCache demo_env (SetCacheTTL warm_authorizer (2 * Minute))
                 (warm_world\<lparr>ticks := 3\<rparr>) demo_user ''user.read'')) \<and>
   cache (fst (cleanExpiredCache demo_env (SetCacheTTL warm_authorizer (2 * Minute))
                 (warm_world\<lparr>ticks := 3\<rparr>) [demo_user])) demo_user = None"
proof -
  have d: "set [demo_user] = dom (cache warm_authorizer)"
    by (simp add: warm_authorizer_eq)
  have hit: "snd (fst (checkCache demo_env warm_authorizer (warm_world\<lparr>ticks := 3\<rparr>)
               demo_user ''user.read''))"
    by (simp add: checkCache_found warm_authorizer_eq warm_world_eq demo_defs)
  show ?thesis
    using d hit
      C9_set_ttl [of warm_authorizer "2 * Minute" demo_env "warm_world\<lparr>ticks := 3\<rparr>"
        demo_user "''user.read''" "[demo_user]" demo_user]
    by (simp add: warm_authorizer_eq warm_world_eq demo_defs)
qed

section \<open>The composite checks on an empty list\<close>

text \<open>
  C10: for every user ID, whatever \<open>uuid.Parse\<close> makes of it, \<open>HasAnyPermission\<close> on the
  empty list returns \<open>(false, nil)\<close> and \<open>HasAllPermissions\<close> on the empty list returns
  \<open>(true, nil)\<close>; the Authorizer and the world are the ones given, so the identifier was
  not parsed into a query, no statement reached the database and the cache is unchanged.
\<close>

theorem C10_empty_list:
  "HasAnyPermission env a w userID [] = ((False, None), a, w) \<and>
   HasAllPermissions env a w userID [] = ((True, None), a, w)"
  by simp

theorem C10_empty_list_witness:
  "snd (uuid_Parse demo_env ''not-a-uuid'') \<noteq> None \<and>
   HasAnyPermission demo_env warm_authorizer warm_world ''not-a-uuid'' [] =
     ((False, None), warm_authorizer, warm_world) \<and>
   HasAllPermissions demo_env warm_authorizer warm_world ''not-a-uuid'' [] =
     ((True, None), warm_authorizer, warm_world)"
  using C10_empty_list [of demo_env warm_authorizer warm_world "''not-a-uuid''"]
  by (simp add: demo_defs)

end
